theory Spec2Isabelle
  imports Main "HOL-Library.Sublist"
begin

section \<open>Strings\<close>

text \<open>
  A Python \<open>str\<close> is modelled as a \<open>string\<close>, the list of the 8-bit characters of its
  UTF-8 encoding. Substring containment (\<open>p in t\<close>) is the same on code points and on
  their UTF-8 encoding. The three operations of the source that depend on character
  classes, \<open>str.lower\<close>, \<open>str.strip\<close> and the regular expression class \<open>\d\<close>, are
  modelled by what they do on ASCII text: the letters \<open>A\<close> to \<open>Z\<close>, the ASCII
  white space characters and the digits \<open>0\<close> to \<open>9\<close>.
\<close>

definition lower_char :: "char \<Rightarrow> char" where
  "lower_char c =
     (case map_of (zip ''ABCDEFGHIJKLMNOPQRSTUVWXYZ'' ''abcdefghijklmnopqrstuvwxyz'') c of
        Some l \<Rightarrow> l
      | None \<Rightarrow> c)"

definition lower :: "string \<Rightarrow> string" where
  "lower s = map lower_char s"



text \<open>\<open>p in t\<close> on two strings: \<open>p\<close> occurs in \<open>t\<close> as a contiguous block.\<close>

fun is_in :: "string \<Rightarrow> string \<Rightarrow> bool" where
  "is_in p [] = (p = [])"
| "is_in p (c # t) = (prefix p (c # t) \<or> is_in p t)"



definition is_digit :: "char \<Rightarrow> bool" where
  "is_digit c = (c \<in> set ''0123456789'')"

section \<open>Patterns for status detection\<close>

definition CLOSED_PATTERNS :: "string list" where
  "CLOSED_PATTERNS =
     [''no longer accepting applications'',
      ''no longer available'',
      ''job has expired'',
      ''position has been filled'',
      ''position filled'',
      ''job is closed'',
      ''this job is closed'',
      ''no longer posted'',
      ''no longer active'']"

text \<open>The second phrase holds U+2019, the bytes E2 80 99 in UTF-8.\<close>

definition LINKEDIN_REJECT_PATTERNS :: "string list" where
  "LINKEDIN_REJECT_PATTERNS =
     [''no longer being considered for this job'',
      ''you'' @ [CHR 0xE2, CHR 0x80, CHR 0x99] @ ''re no longer being considered'',
      ''you are no longer in consideration'']"

definition LINKEDIN_REVIEW_PATTERNS :: "string list" where
  "LINKEDIN_REVIEW_PATTERNS =
     [''your application is under review'',
      ''your application is being reviewed'']"

definition LINKEDIN_VIEWED_PATTERNS :: "string list" where
  "LINKEDIN_VIEWED_PATTERNS =
     [''your application has been viewed'',
      ''your application was viewed'']"

definition LINKEDIN_SUBMITTED_PATTERNS :: "string list" where
  "LINKEDIN_SUBMITTED_PATTERNS =
     [''we received your application'',
      ''application submitted'']"

definition WORKDAY_REJECT_PATTERNS :: "string list" where
  "WORKDAY_REJECT_PATTERNS =
     [''no longer in consideration'',
      ''not selected'',
      ''no longer being considered'']"

definition WORKDAY_INPROCESS_PATTERNS :: "string list" where
  "WORKDAY_INPROCESS_PATTERNS =
     [''in progress'',
      ''under review'',
      ''under consideration'']"

section \<open>Helpers\<close>






section \<open>Status classification\<close>

text \<open>The loop \<open>for p in PATTERNS: if p in t: return ...\<close>: does any phrase occur?\<close>

fun any_in :: "string list \<Rightarrow> string \<Rightarrow> bool" where
  "any_in [] t = False"
| "any_in (p # ps) t = (if is_in p t then True else any_in ps t)"

definition classify_status :: "string \<Rightarrow> string \<Rightarrow> string" where
  "classify_status text domain =
     (let t = lower text in
      if domain = ''linkedin'' then
        (if any_in LINKEDIN_REJECT_PATTERNS t then ''APPLICATION REJECTED (LinkedIn)''
         else if any_in LINKEDIN_REVIEW_PATTERNS t then ''APPLICATION UNDER REVIEW (LinkedIn)''
         else if any_in LINKEDIN_VIEWED_PATTERNS t then ''APPLICATION VIEWED (LinkedIn)''
         else if any_in LINKEDIN_SUBMITTED_PATTERNS t then ''APPLICATION SUBMITTED (LinkedIn)''
         else if any_in CLOSED_PATTERNS t then ''JOB CLOSED (LinkedIn)''
         else ''UNKNOWN (LinkedIn)'')
      else if domain = ''workday'' then
        (if any_in WORKDAY_REJECT_PATTERNS t then ''APPLICATION REJECTED (Workday)''
         else if any_in WORKDAY_INPROCESS_PATTERNS t then ''APPLICATION IN PROCESS (Workday)''
         else if any_in CLOSED_PATTERNS t then ''JOB CLOSED (Workday)''
         else ''UNKNOWN (Workday)'')
      else if any_in CLOSED_PATTERNS t then ''JOB CLOSED ('' @ domain @ '')''
      else ''UNKNOWN ('' @ domain @ '')'')"

section \<open>Workday login\<close>

text \<open>
  The values \<open>json.load\<close> can put into the credential cache. \<open>PFloat m e\<close> is the
  finite float of value \<open>m * 2 ^ e\<close>; \<open>PNonFinite\<close> stands for \<open>nan\<close> and the infinities.
\<close>

datatype pyval =
    PNone
  | PBool bool
  | PInt int
  | PFloat int int
  | PNonFinite
  | PStr string
  | PList "pyval list"
  | PDict "(string \<times> pyval) list"

text \<open>
  \<open>v == n\<close> for an integer \<open>n\<close>: Python compares numbers by value across \<open>int\<close>,
  \<open>bool\<close> and \<open>float\<close>, and every other value is unequal to a number.
\<close>

fun py_eq_int :: "pyval \<Rightarrow> int \<Rightarrow> bool" where
  "py_eq_int (PInt k) n = (k = n)"
| "py_eq_int (PBool b) n = ((if b then 1 else 0) = n)"
| "py_eq_int (PFloat m e) n =
     (if 0 \<le> e then m * 2 ^ nat e = n else m = n * 2 ^ nat (- e))"
| "py_eq_int v n = False"

text \<open>
  The cache is a \<open>dict\<close> with string keys: an association list in insertion order.
  \<open>cache[k] = v\<close> replaces the value of an existing key in place and appends a new key.
\<close>

type_synonym cache = "(string \<times> pyval) list"

fun dict_set :: "string \<Rightarrow> pyval \<Rightarrow> cache \<Rightarrow> cache" where
  "dict_set k v [] = [(k, v)]"
| "dict_set k v ((k', v') # kvs) =
     (if k' = k then (k, v) # kvs else (k', v') # dict_set k v kvs)"

text \<open>
  The surroundings of the run: the three configuration variables read by \<open>os.getenv\<close>,
  and the browser. \<open>'w\<close> is the state of the browser session. \<open>attempt_login\<close> is the
  nested function of \<open>workday_try_login\<close> (login URL, e-mail, password): it drives the
  browser and answers whether the login went through, every exception caught inside.
  \<open>fetch_page\<close> is the body of the \<open>try\<close> in \<open>process_worksheet\<close> up to
  \<open>page.content()\<close>: the page content, or the name of the exception type raised.
\<close>

record 'w environment =
  WORKDAY_EMAIL :: "string option"
  WORKDAY_PASSWORD_1 :: "string option"
  WORKDAY_PASSWORD_2 :: "string option"
  attempt_login :: "string \<Rightarrow> string \<Rightarrow> string \<Rightarrow> 'w \<Rightarrow> bool \<times> 'w"
  fetch_page :: "string \<Rightarrow> 'w \<Rightarrow> (string + string) \<times> 'w"

text \<open>
  What a login leaves behind: the cache, the browser, and the attempts made, in order,
  each with the index announced and the password passed to \<open>attempt_login\<close>.
\<close>

record 'w login_state =
  ls_cache :: cache
  ls_page :: 'w
  ls_tried :: "(int \<times> string) list"

text \<open>
  The order of the attempts, decided from the cache. \<open>workday_try_login\<close> returns
  \<open>False\<close> without an attempt when a configuration variable is unset or empty
  (\<open>not email or not pwd1 or not pwd2\<close>).
\<close>

definition login_order :: "cache \<Rightarrow> string \<Rightarrow> int list" where
  "login_order cache tenant =
     (case map_of cache tenant of
        None \<Rightarrow> [1, 2]
      | Some cached_idx \<Rightarrow> if py_eq_int cached_idx 2 then [2, 1] else [1, 2])"

fun try_order ::
  "'w environment \<Rightarrow> string \<Rightarrow> string \<Rightarrow> string \<Rightarrow> string \<Rightarrow> string \<Rightarrow> int list
     \<Rightarrow> 'w login_state \<Rightarrow> bool \<times> 'w login_state" where
  "try_order env login_url email pwd1 pwd2 tenant [] st = (False, st)"
| "try_order env login_url email pwd1 pwd2 tenant (idx # order) st =
     (let pwd = (if idx = 1 then pwd1 else pwd2);
          r = attempt_login env login_url email pwd (ls_page st);
          st' = st\<lparr>ls_page := snd r, ls_tried := ls_tried st @ [(idx, pwd)]\<rparr>
      in if fst r then (True, st'\<lparr>ls_cache := dict_set tenant (PInt idx) (ls_cache st')\<rparr>)
         else try_order env login_url email pwd1 pwd2 tenant order st')"

definition workday_login_url :: "string \<Rightarrow> string" where
  "workday_login_url tenant = ''https://'' @ tenant @ ''.myworkday.com/'' @ tenant @ ''/login.htm''"

definition workday_try_login ::
  "'w environment \<Rightarrow> 'w \<Rightarrow> string \<Rightarrow> cache \<Rightarrow> bool \<times> 'w login_state" where
  "workday_try_login env page tenant cache =
     (let st = \<lparr>ls_cache = cache, ls_page = page, ls_tried = []\<rparr> in
      case (WORKDAY_EMAIL env, WORKDAY_PASSWORD_1 env, WORKDAY_PASSWORD_2 env) of
        (Some email, Some pwd1, Some pwd2) \<Rightarrow>
          if email = [] \<or> pwd1 = [] \<or> pwd2 = [] then (False, st)
          else try_order env (workday_login_url tenant) email pwd1 pwd2 tenant
                 (login_order cache tenant) st
      | _ \<Rightarrow> (False, st))"

section \<open>Sheet processing\<close>









section \<open>Credential cache file\<close>

text \<open>
  The files of the working directory: the text stored under each path that exists.
  \<open>json.dump\<close> and \<open>json.load\<close> belong to the Python library and are parameters of the
  model: the text \<open>json.dump(v, f, indent=2)\<close> writes for a value, and the value
  \<open>json.load\<close> returns for a text, \<open>None\<close> when it raises.
\<close>

type_synonym files = "string \<rightharpoonup> string"

record json_module =
  json_dump :: "pyval \<Rightarrow> string"
  json_load :: "string \<Rightarrow> pyval option"

definition WORKDAY_CACHE_PATH :: string where
  "WORKDAY_CACHE_PATH = ''workday_cache.json''"

definition load_workday_cache :: "json_module \<Rightarrow> files \<Rightarrow> pyval" where
  "load_workday_cache js fs =
     (case fs WORKDAY_CACHE_PATH of
        None \<Rightarrow> PDict []
      | Some content \<Rightarrow>
          (case json_load js content of
             Some v \<Rightarrow> v
           | None \<Rightarrow> PDict []))"

definition save_workday_cache :: "json_module \<Rightarrow> cache \<Rightarrow> files \<Rightarrow> files" where
  "save_workday_cache js cache fs = fs(WORKDAY_CACHE_PATH \<mapsto> json_dump js (PDict cache))"

section \<open>Reference definitions\<close>








text \<open>
  A small environment to run the model in. The browser state counts the navigations.
  The second password opens the tenant \<open>beta\<close> and no password opens another tenant;
  a URL containing \<open>slow\<close> times out and every other page says that the job is closed.
\<close>

definition demo_env :: "nat environment" where
  "demo_env =
     \<lparr>WORKDAY_EMAIL = Some ''me@example.org'',
      WORKDAY_PASSWORD_1 = Some ''first'',
      WORKDAY_PASSWORD_2 = Some ''second'',
      attempt_login = (\<lambda>login_url email password n.
         (is_in ''beta'' login_url \<and> password = ''second'', n + 1)),
      fetch_page = (\<lambda>url n.
         (if is_in ''slow'' url then Inl ''TimeoutError''
          else Inr ''<p>This job is closed</p>'', n + 1))\<rparr>"

text \<open>
  A reader and a writer for the JSON text of a flat cache, to run the cache file in:
  an object whose members are integers, laid out as \<open>json.dump\<close> does with
  \<open>indent=2\<close>. In a key, the quote, the backslash and the control characters with a
  short escape are written with it, every other character outside the printable ASCII
  range as \<^verbatim>\<open>\u00XX\<close>; for an ASCII key this is the text \<open>json.dump\<close> writes.
  Values that are not integers are outside this fragment: they are written as
  \<open>null\<close>, and the reader accepts integer members only.
\<close>

definition hex_digit :: "nat \<Rightarrow> char" where
  "hex_digit n = ''0123456789abcdef'' ! (n mod 16)"

definition hex_value :: "char \<Rightarrow> nat option" where
  "hex_value c =
     map_of (zip ''0123456789abcdefABCDEF''
               [0, 1, 2, 3, 4, 5, 6, 7, 8, 9, 10, 11, 12, 13, 14, 15, 10, 11, 12, 13, 14, 15]) c"

definition write_char :: "char \<Rightarrow> string" where
  "write_char c =
     (if c = CHR 0x22 then [CHR 0x5C, CHR 0x22]
      else if c = CHR 0x5C then [CHR 0x5C, CHR 0x5C]
      else if c = CHR 0x0A then [CHR 0x5C, CHR ''n'']
      else if c = CHR 0x0D then [CHR 0x5C, CHR ''r'']
      else if c = CHR 0x09 then [CHR 0x5C, CHR ''t'']
      else if c = CHR 0x08 then [CHR 0x5C, CHR ''b'']
      else if c = CHR 0x0C then [CHR 0x5C, CHR ''f'']
      else if 32 \<le> (of_char c :: nat) \<and> (of_char c :: nat) \<le> 126 then [c]
      else [CHR 0x5C, CHR ''u'', CHR ''0'', CHR ''0'',
            hex_digit (of_char c div 16), hex_digit (of_char c mod 16)])"

definition write_string :: "string \<Rightarrow> string" where
  "write_string s = [CHR 0x22] @ concat (map write_char s) @ [CHR 0x22]"

fun write_nat :: "nat \<Rightarrow> string" where
  "write_nat n =
     (if n < 10 then [''0123456789'' ! n]
      else write_nat (n div 10) @ [''0123456789'' ! (n mod 10)])"

declare write_nat.simps [simp del]

definition write_int :: "int \<Rightarrow> string" where
  "write_int k = (if k < 0 then CHR ''-'' # write_nat (nat (- k)) else write_nat (nat k))"

fun write_value :: "pyval \<Rightarrow> string" where
  "write_value (PInt k) = write_int k"
| "write_value v = ''null''"

fun write_members :: "(string \<times> pyval) list \<Rightarrow> string" where
  "write_members [] = []"
| "write_members [(k, v)] = ''  '' @ write_string k @ '': '' @ write_value v @ [CHR 0x0A]"
| "write_members ((k, v) # kvs) =
     ''  '' @ write_string k @ '': '' @ write_value v @ [CHR '','', CHR 0x0A] @ write_members kvs"

fun flat_dump :: "pyval \<Rightarrow> string" where
  "flat_dump (PDict kvs) =
     (if kvs = [] then ''{}'' else [CHR ''{'', CHR 0x0A] @ write_members kvs @ ''}'')"
| "flat_dump v = write_value v"

definition skip_ws :: "string \<Rightarrow> string" where
  "skip_ws s = dropWhile (\<lambda>c. c \<in> set [CHR 0x20, CHR 0x09, CHR 0x0A, CHR 0x0D]) s"

text \<open>The characters of a string up to its closing quote, escapes resolved.\<close>

fun read_chars :: "string \<Rightarrow> (string \<times> string) option" where
  "read_chars [] = None"
| "read_chars (c # s) =
     (if c = CHR 0x22 then Some ([], s)
      else if c = CHR 0x5C then
        (case s of
           [] \<Rightarrow> None
         | e # s' \<Rightarrow>
             if e = CHR ''u'' then
               (case s' of
                  a # b # x # y # s'' \<Rightarrow>
                    (case (hex_value a, hex_value b, hex_value x, hex_value y) of
                       (Some 0, Some 0, Some h, Some l) \<Rightarrow>
                         map_option (\<lambda>(t, r). (char_of (h * 16 + l) # t, r)) (read_chars s'')
                     | _ \<Rightarrow> None)
                | _ \<Rightarrow> None)
             else
               (case map_of [(CHR 0x22, CHR 0x22), (CHR 0x5C, CHR 0x5C), (CHR ''/'', CHR ''/''),
                             (CHR ''n'', CHR 0x0A), (CHR ''r'', CHR 0x0D), (CHR ''t'', CHR 0x09),
                             (CHR ''b'', CHR 0x08), (CHR ''f'', CHR 0x0C)] e of
                  None \<Rightarrow> None
                | Some d \<Rightarrow> map_option (\<lambda>(t, r). (d # t, r)) (read_chars s')))
      else if (of_char c :: nat) < 32 then None
      else map_option (\<lambda>(t, r). (c # t, r)) (read_chars s))"

definition read_string :: "string \<Rightarrow> (string \<times> string) option" where
  "read_string s = (case s of [] \<Rightarrow> None | c # s' \<Rightarrow> if c = CHR 0x22 then read_chars s' else None)"

definition read_nat :: "string \<Rightarrow> nat" where
  "read_nat ds = foldl (\<lambda>n c. 10 * n + (of_char c - 48)) 0 ds"

definition read_int :: "string \<Rightarrow> (int \<times> string) option" where
  "read_int s =
     (let neg = (s \<noteq> [] \<and> hd s = CHR ''-'');
          s' = (if neg then tl s else s);
          ds = takeWhile is_digit s';
          rest = dropWhile is_digit s'
      in if ds = [] \<or> (length ds > 1 \<and> hd ds = CHR ''0'') then None
         else Some (if neg then - int (read_nat ds) else int (read_nat ds), rest))"

text \<open>
  The members of an object after its opening brace. The first argument bounds the
  number of members read; \<open>flat_load\<close> passes the length of the text.
\<close>

fun read_members :: "nat \<Rightarrow> string \<Rightarrow> ((string \<times> pyval) list \<times> string) option" where
  "read_members 0 s = None"
| "read_members (Suc n) s =
     (case read_string (skip_ws s) of
        None \<Rightarrow> None
      | Some (k, s1) \<Rightarrow>
          (case skip_ws s1 of
             [] \<Rightarrow> None
           | c # s2 \<Rightarrow>
               if c \<noteq> CHR '':'' then None
               else (case read_int (skip_ws s2) of
                       None \<Rightarrow> None
                     | Some (v, s3) \<Rightarrow>
                         (case skip_ws s3 of
                            [] \<Rightarrow> None
                          | d # s4 \<Rightarrow>
                              if d = CHR ''}'' then Some ([(k, PInt v)], s4)
                              else if d = CHR '','' then
                                map_option (\<lambda>(kvs, r). ((k, PInt v) # kvs, r)) (read_members n s4)
                              else None))))"

definition flat_load :: "string \<Rightarrow> pyval option" where
  "flat_load s =
     (case skip_ws s of
        [] \<Rightarrow> None
      | c # s1 \<Rightarrow>
          if c \<noteq> CHR ''{'' then None
          else (case skip_ws s1 of
                  [] \<Rightarrow> None
                | d # s2 \<Rightarrow>
                    if d = CHR ''}'' then (if skip_ws s2 = [] then Some (PDict []) else None)
                    else (case read_members (length s) s1 of
                            None \<Rightarrow> None
                          | Some (kvs, r) \<Rightarrow> if skip_ws r = [] then Some (PDict kvs) else None)))"

definition flat_json :: json_module where
  "flat_json = \<lparr>json_dump = flat_dump, json_load = flat_load\<rparr>"

text \<open>A cache as the login writes it: every entry is the integer 1 or 2.\<close>

fun index_cache :: "cache \<Rightarrow> bool" where
  "index_cache [] = True"
| "index_cache ((k, v) # kvs) = ((v = PInt 1 \<or> v = PInt 2) \<and> index_cache kvs)"

section \<open>Facts about strings\<close>

lemma is_in_iff: "is_in p t \<longleftrightarrow> (\<exists>a b. t = a @ p @ b)"
proof (induction t)
  case Nil
  then show ?case by auto
next
  case (Cons c t)
  show ?case
  proof
    assume "is_in p (c # t)"
    then consider "prefix p (c # t)" | "is_in p t" by auto
    then show "\<exists>a b. c # t = a @ p @ b"
    proof cases
      case 1
      then obtain b where "c # t = p @ b" by (auto simp: prefix_def)
      then have "c # t = [] @ p @ b" by simp
      then show ?thesis by blast
    next
      case 2
      with Cons.IH obtain a b where "t = a @ p @ b" by blast
      then have "c # t = (c # a) @ p @ b" by simp
      then show ?thesis by blast
    qed
  next
    assume "\<exists>a b. c # t = a @ p @ b"
    then obtain a b where ab: "c # t = a @ p @ b" by blast
    show "is_in p (c # t)"
    proof (cases a)
      case Nil
      with ab have "prefix p (c # t)" by (simp add: prefix_def)
      then show ?thesis by simp
    next
      case (Cons x a')
      with ab have "t = a' @ p @ b" by simp
      with Cons.IH have "is_in p t" by blast
      then show ?thesis by simp
    qed
  qed
qed

lemma lower_append: "lower (a @ b) = lower a @ lower b"
  by (simp add: lower_def)

lemma is_in_lower: "is_in p t \<Longrightarrow> is_in (lower p) (lower t)"
proof -
  assume "is_in p t"
  then obtain a b where "t = a @ p @ b" unfolding is_in_iff by blast
  then have "lower t = lower a @ lower p @ lower b" by (simp add: lower_append)
  then show ?thesis unfolding is_in_iff by blast
qed





lemma any_in_iff: "any_in ps t \<longleftrightarrow> list_ex (\<lambda>p. is_in p t) ps"
  by (induction ps) auto

section \<open>Facts about the tenant pattern\<close>










section \<open>Tenant extraction and domain detection\<close>

lemma lower_marker_workday: "lower ''.myworkdayjobs.com'' = ''.myworkdayjobs.com''"
  by (simp add: lower_def lower_char_def)






section \<open>The phrase lists\<close>

text \<open>
  Claim C3, as the code has it. The generic closed-phrase list holds nine phrases; the
  LinkedIn lists hold 3 reject, 2 review, 2 viewed and 2 submitted phrases, the Workday
  lists 3 reject and 3 in-process phrases.
\<close>

theorem phrase_list_lengths:
  "length CLOSED_PATTERNS = 9 \<and>
   length LINKEDIN_REJECT_PATTERNS = 3 \<and>
   length LINKEDIN_REVIEW_PATTERNS = 2 \<and>
   length LINKEDIN_VIEWED_PATTERNS = 2 \<and>
   length LINKEDIN_SUBMITTED_PATTERNS = 2 \<and>
   length WORKDAY_REJECT_PATTERNS = 3 \<and>
   length WORKDAY_INPROCESS_PATTERNS = 3"
  by (simp add: CLOSED_PATTERNS_def LINKEDIN_REJECT_PATTERNS_def LINKEDIN_REVIEW_PATTERNS_def
      LINKEDIN_VIEWED_PATTERNS_def LINKEDIN_SUBMITTED_PATTERNS_def WORKDAY_REJECT_PATTERNS_def
      WORKDAY_INPROCESS_PATTERNS_def)

text \<open>Claim C3 as stated fails: the generic closed-phrase list does not hold ten phrases.\<close>

theorem closed_patterns_not_ten_counterexample:
  "length CLOSED_PATTERNS \<noteq> 10"
  by (simp add: CLOSED_PATTERNS_def)

section \<open>Domain detection\<close>


section \<open>Status classification\<close>

lemma lower_workday_reject:
  "p \<in> set WORKDAY_REJECT_PATTERNS \<Longrightarrow> lower p = p"
  by (auto simp: WORKDAY_REJECT_PATTERNS_def lower_def lower_char_def)

lemma any_in_lowerI:
  assumes "p \<in> set ps" and "lower p = p" and "is_in p text \<or> is_in p (lower text)"
  shows "any_in ps (lower text)"
proof -
  from assms(2,3) is_in_lower [of p "text"] have "is_in p (lower text)" by auto
  with assms(1) show ?thesis unfolding any_in_iff list_ex_iff by blast
qed

text \<open>
  Claim C5. In the Workday domain, a page text that contains a reject phrase and an
  in-process phrase, as it stands or after lower-casing, is classified
  \<open>APPLICATION REJECTED (Workday)\<close>: the reject phrases are checked first.
\<close>

theorem classify_status_workday_reject_first:
  assumes "p \<in> set WORKDAY_REJECT_PATTERNS"
    and "q \<in> set WORKDAY_INPROCESS_PATTERNS"
    and "is_in p text \<or> is_in p (lower text)"
    and "is_in q text \<or> is_in q (lower text)"
  shows "classify_status text ''workday'' = ''APPLICATION REJECTED (Workday)''"
proof -
  have "any_in WORKDAY_REJECT_PATTERNS (lower text)"
    using assms(1) lower_workday_reject [OF assms(1)] assms(3) by (rule any_in_lowerI)
  then show ?thesis by (simp add: classify_status_def)
qed

text \<open>
  The theorem of C5 at a text with the reject phrase \<open>not selected\<close> in capitals and
  the in-process phrase \<open>under review\<close>; without the reject phrase the same text is
  classified as in process.
\<close>

theorem classify_status_workday_reject_first_witness:
  "''not selected'' \<in> set WORKDAY_REJECT_PATTERNS \<and>
   ''under review'' \<in> set WORKDAY_INPROCESS_PATTERNS \<and>
   is_in ''not selected'' (lower ''Not Selected (was under review)'') \<and>
   is_in ''under review'' ''Not Selected (was under review)'' \<and>
   classify_status ''Not Selected (was under review)'' ''workday''
     = ''APPLICATION REJECTED (Workday)'' \<and>
   classify_status ''(was under review)'' ''workday'' = ''APPLICATION IN PROCESS (Workday)''"
proof -
  have p: "''not selected'' \<in> set WORKDAY_REJECT_PATTERNS"
    by (simp add: WORKDAY_REJECT_PATTERNS_def)
  have q: "''under review'' \<in> set WORKDAY_INPROCESS_PATTERNS"
    by (simp add: WORKDAY_INPROCESS_PATTERNS_def)
  have ip: "is_in ''not selected'' (lower ''Not Selected (was under review)'')"
    by (simp add: lower_def lower_char_def)
  have iq: "is_in ''under review'' ''Not Selected (was under review)''"
    by simp
  have other: "classify_status ''(was under review)'' ''workday''
      = ''APPLICATION IN PROCESS (Workday)''"
    by (simp add: classify_status_def lower_def lower_char_def WORKDAY_REJECT_PATTERNS_def
        WORKDAY_INPROCESS_PATTERNS_def)
  from classify_status_workday_reject_first [OF p q disjI2 [OF ip] disjI1 [OF iq]] p q ip iq other
  show ?thesis by simp
qed

section \<open>The order of the login attempts and the cache\<close>





lemma try_order_pair:
  "try_order env url email pwd1 pwd2 tenant [a, b] st =
     (let pa = (if a = 1 then pwd1 else pwd2);
          pb = (if b = 1 then pwd1 else pwd2);
          ra = attempt_login env url email pa (ls_page st)
      in if fst ra
         then (True, \<lparr>ls_cache = dict_set tenant (PInt a) (ls_cache st), ls_page = snd ra,
                      ls_tried = ls_tried st @ [(a, pa)]\<rparr>)
         else let rb = attempt_login env url email pb (snd ra)
              in if fst rb
                 then (True, \<lparr>ls_cache = dict_set tenant (PInt b) (ls_cache st),
                              ls_page = snd rb, ls_tried = ls_tried st @ [(a, pa), (b, pb)]\<rparr>)
                 else (False, \<lparr>ls_cache = ls_cache st, ls_page = snd rb,
                               ls_tried = ls_tried st @ [(a, pa), (b, pb)]\<rparr>))"
  by (cases st) (simp add: Let_def)

lemma workday_try_login_configured:
  assumes "WORKDAY_EMAIL env = Some email" "WORKDAY_PASSWORD_1 env = Some pwd1"
    "WORKDAY_PASSWORD_2 env = Some pwd2" "email \<noteq> []" "pwd1 \<noteq> []" "pwd2 \<noteq> []"
  shows "workday_try_login env page tenant cache =
     try_order env (workday_login_url tenant) email pwd1 pwd2 tenant (login_order cache tenant)
       \<lparr>ls_cache = cache, ls_page = page, ls_tried = []\<rparr>"
  using assms by (simp add: workday_try_login_def)


text \<open>
  Claim C4. With the Workday credentials configured, the order of the attempts follows
  the cache. For a tenant with the cached index \<open>k\<close> (1 or 2) the password of index
  \<open>k\<close> is tried first, and the other one after it when the first attempt fails; so with
  the entry 2 the second password is tried strictly before the first. For a tenant
  without an entry the first password is tried first and the second after it.
\<close>

theorem workday_try_login_order:
  assumes "WORKDAY_EMAIL env = Some email" and "WORKDAY_PASSWORD_1 env = Some pwd1"
    and "WORKDAY_PASSWORD_2 env = Some pwd2"
    and "email \<noteq> []" and "pwd1 \<noteq> []" and "pwd2 \<noteq> []"
  shows
    "(map_of cache tenant = Some (PInt k) \<and> (k = 1 \<or> k = 2) \<longrightarrow>
        ls_tried (snd (workday_try_login env page tenant cache)) =
          (if fst (attempt_login env (workday_login_url tenant) email
                     (if k = 1 then pwd1 else pwd2) page)
           then [(k, if k = 1 then pwd1 else pwd2)]
           else [(k, if k = 1 then pwd1 else pwd2), (3 - k, if k = 1 then pwd2 else pwd1)])) \<and>
     (map_of cache tenant = None \<longrightarrow>
        ls_tried (snd (workday_try_login env page tenant cache)) =
          (if fst (attempt_login env (workday_login_url tenant) email pwd1 page)
           then [(1, pwd1)]
           else [(1, pwd1), (2, pwd2)]))"
proof (intro conjI impI)
  assume "map_of cache tenant = Some (PInt k) \<and> (k = 1 \<or> k = 2)"
  then have "login_order cache tenant = [k, 3 - k]"
    by (auto simp: login_order_def)
  then show "ls_tried (snd (workday_try_login env page tenant cache)) =
          (if fst (attempt_login env (workday_login_url tenant) email
                     (if k = 1 then pwd1 else pwd2) page)
           then [(k, if k = 1 then pwd1 else pwd2)]
           else [(k, if k = 1 then pwd1 else pwd2), (3 - k, if k = 1 then pwd2 else pwd1)])"
    using \<open>map_of cache tenant = Some (PInt k) \<and> (k = 1 \<or> k = 2)\<close>
    by (auto simp: workday_try_login_configured [OF assms] try_order_pair Let_def)
next
  assume "map_of cache tenant = None"
  then have "login_order cache tenant = [1, 2]"
    by (simp add: login_order_def)
  then show "ls_tried (snd (workday_try_login env page tenant cache)) =
          (if fst (attempt_login env (workday_login_url tenant) email pwd1 page)
           then [(1, pwd1)]
           else [(1, pwd1), (2, pwd2)])"
    by (simp add: workday_try_login_configured [OF assms] try_order_pair Let_def)
qed

text \<open>
  The theorem of C4 in the demonstration environment, where no password opens the
  tenant \<open>acme\<close>: with the entry 2 the second password is tried before the first, and
  without an entry the first before the second.
\<close>

theorem workday_try_login_order_witness:
  "WORKDAY_EMAIL demo_env = Some ''me@example.org'' \<and>
   WORKDAY_PASSWORD_1 demo_env = Some ''first'' \<and>
   WORKDAY_PASSWORD_2 demo_env = Some ''second'' \<and>
   map_of [(''acme'', PInt 2)] ''acme'' = Some (PInt 2) \<and>
   ls_tried (snd (workday_try_login demo_env 0 ''acme'' [(''acme'', PInt 2)]))
     = [(2, ''second''), (1, ''first'')] \<and>
   map_of [] ''acme'' = (None :: pyval option) \<and>
   ls_tried (snd (workday_try_login demo_env 0 ''acme'' []))
     = [(1, ''first''), (2, ''second'')]"
proof -
  have e: "WORKDAY_EMAIL demo_env = Some ''me@example.org''"
    and p1: "WORKDAY_PASSWORD_1 demo_env = Some ''first''"
    and p2: "WORKDAY_PASSWORD_2 demo_env = Some ''second''"
    by (simp_all add: demo_env_def)
  have f: "\<not> fst (attempt_login demo_env (workday_login_url ''acme'') email pwd page)"
    for email pwd page
    by (simp add: demo_env_def workday_login_url_def)
  show ?thesis
    using e p1 p2 f
      workday_try_login_order [OF e p1 p2, of "[(''acme'', PInt 2)]" "''acme''" 2 0]
      workday_try_login_order [OF e p1 p2, of "[]" "''acme''" 2 0]
    by simp
qed



lemma py_eq_int_two:
  "py_eq_int v 2 \<longleftrightarrow>
     v = PInt 2 \<or>
     (\<exists>m e. v = PFloat m e \<and> (if 0 \<le> e then m * 2 ^ nat e = 2 else m = 2 * 2 ^ nat (- e)))"
  by (cases v) auto

text \<open>
  Claim C10, as the code has it. With the Workday credentials configured, a cache entry
  that Python does not compare equal to 2 leaves the default order: the first password
  is tried first and the second after it, exactly as for a tenant without an entry. The
  values equal to 2 are the integer 2 and the floats of value 2.0; every other value,
  the integer 1 and the string \<open>"2"\<close> among them, is unequal to 2.
\<close>

theorem workday_try_login_default_order:
  assumes "WORKDAY_EMAIL env = Some email" and "WORKDAY_PASSWORD_1 env = Some pwd1"
    and "WORKDAY_PASSWORD_2 env = Some pwd2"
    and "email \<noteq> []" and "pwd1 \<noteq> []" and "pwd2 \<noteq> []"
  shows
    "(map_of cache tenant = Some v \<and> \<not> py_eq_int v 2 \<longrightarrow>
        ls_tried (snd (workday_try_login env page tenant cache)) =
          (if fst (attempt_login env (workday_login_url tenant) email pwd1 page)
           then [(1, pwd1)]
           else [(1, pwd1), (2, pwd2)]) \<and>
        ls_tried (snd (workday_try_login env page tenant cache)) =
          ls_tried (snd (workday_try_login env page tenant []))) \<and>
     (py_eq_int v 2 \<longleftrightarrow>
        v = PInt 2 \<or>
        (\<exists>m e. v = PFloat m e \<and>
           (if 0 \<le> e then m * 2 ^ nat e = 2 else m = 2 * 2 ^ nat (- e)))) \<and>
     \<not> py_eq_int (PInt 1) 2 \<and> \<not> py_eq_int (PStr s) 2"
proof (intro conjI impI)
  assume a: "map_of cache tenant = Some v \<and> \<not> py_eq_int v 2"
  then have o: "login_order cache tenant = [1, 2]"
    by (auto simp: login_order_def)
  have o': "login_order [] tenant = [1, 2]"
    by (simp add: login_order_def)
  from o show "ls_tried (snd (workday_try_login env page tenant cache)) =
          (if fst (attempt_login env (workday_login_url tenant) email pwd1 page)
           then [(1, pwd1)]
           else [(1, pwd1), (2, pwd2)])"
    by (simp add: workday_try_login_configured [OF assms] try_order_pair Let_def)
  from o o' show "ls_tried (snd (workday_try_login env page tenant cache)) =
          ls_tried (snd (workday_try_login env page tenant []))"
    by (simp add: workday_try_login_configured [OF assms] try_order_pair Let_def)
next
  show "py_eq_int v 2 \<longleftrightarrow>
        v = PInt 2 \<or>
        (\<exists>m e. v = PFloat m e \<and>
           (if 0 \<le> e then m * 2 ^ nat e = 2 else m = 2 * 2 ^ nat (- e)))"
    by (rule py_eq_int_two)
qed simp_all

text \<open>
  The theorem of C10 in the demonstration environment, with the string \<open>"2"\<close> cached
  for the tenant \<open>acme\<close>.
\<close>

theorem workday_try_login_default_order_witness:
  "WORKDAY_EMAIL demo_env = Some ''me@example.org'' \<and>
   WORKDAY_PASSWORD_1 demo_env = Some ''first'' \<and>
   WORKDAY_PASSWORD_2 demo_env = Some ''second'' \<and>
   map_of [(''acme'', PStr ''2'')] ''acme'' = Some (PStr ''2'') \<and>
   \<not> py_eq_int (PStr ''2'') 2 \<and>
   ls_tried (snd (workday_try_login demo_env 0 ''acme'' [(''acme'', PStr ''2'')]))
     = [(1, ''first''), (2, ''second'')]"
proof -
  have e: "WORKDAY_EMAIL demo_env = Some ''me@example.org''"
    and p1: "WORKDAY_PASSWORD_1 demo_env = Some ''first''"
    and p2: "WORKDAY_PASSWORD_2 demo_env = Some ''second''"
    by (simp_all add: demo_env_def)
  have f: "\<not> fst (attempt_login demo_env (workday_login_url ''acme'') email pwd page)"
    for email pwd page
    by (simp add: demo_env_def workday_login_url_def)
  show ?thesis
    using e p1 p2 f
      workday_try_login_default_order [OF e p1 p2,
        of "[(''acme'', PStr ''2'')]" "''acme''" "PStr ''2''" 0]
    by simp
qed

text \<open>
  Claim C10 as stated fails: the float 2.0, which \<open>json.load\<close> returns for the text
  \<^verbatim>\<open>2.0\<close>, is not the integer 2 and reverses the order all the same.
\<close>

theorem workday_try_login_float_counterexample:
  "PFloat 1 1 \<noteq> PInt 2 \<and>
   map_of [(''acme'', PFloat 1 1)] ''acme'' = Some (PFloat 1 1) \<and>
   ls_tried (snd (workday_try_login demo_env 0 ''acme'' [(''acme'', PFloat 1 1)]))
     = [(2, ''second''), (1, ''first'')]"
  by (simp add: workday_try_login_def demo_env_def login_order_def workday_login_url_def
      Let_def)

section \<open>The rows written by the sheet processor\<close>













section \<open>The credential cache file\<close>

lemma below_sixteen:
  "(n::nat) < 16 \<Longrightarrow> n \<in> set [0, 1, 2, 3, 4, 5, 6, 7, 8, 9, 10, 11, 12, 13, 14, 15]"
  by (simp add: less_Suc_eq numeral_eq_Suc)

lemma hex_value_hex_digit: "n < 16 \<Longrightarrow> hex_value (hex_digit n) = Some n"
proof -
  assume "n < 16"
  then have "n \<in> set [0, 1, 2, 3, 4, 5, 6, 7, 8, 9, 10, 11, 12, 13, 14, 15]"
    by (rule below_sixteen)
  then show ?thesis
    by (auto simp: hex_digit_def hex_value_def)
qed

lemma of_char_div_16: "(of_char c :: nat) div 16 < 16"
  using of_char_mod_256 [where ?'a = nat, of c] by (simp add: less_mult_imp_div_less)

lemma read_chars_escape_u:
  "read_chars (CHR 0x5C # CHR ''u'' # CHR ''0'' # CHR ''0'' #
       hex_digit (of_char c div 16) # hex_digit (of_char c mod 16) # s) =
     map_option (\<lambda>(t, r). (c # t, r)) (read_chars s)"
proof -
  have h: "hex_value (hex_digit (of_char c div 16)) = Some (of_char c div 16)"
    by (intro hex_value_hex_digit of_char_div_16)
  have l: "hex_value (hex_digit (of_char c mod 16)) = Some (of_char c mod 16)"
    by (intro hex_value_hex_digit) simp
  have z: "hex_value (CHR ''0'') = Some 0"
    by (simp add: hex_value_def)
  have c: "char_of ((of_char c :: nat) div 16 * 16 + of_char c mod 16) = c"
    by simp
  show ?thesis
    by (simp add: h l z c)
qed

lemma read_chars_write_char:
  "read_chars (write_char c @ s) = map_option (\<lambda>(t, r). (c # t, r)) (read_chars s)"
proof -
  consider "c = CHR 0x22" | "c = CHR 0x5C" | "c = CHR 0x0A" | "c = CHR 0x0D" | "c = CHR 0x09"
    | "c = CHR 0x08" | "c = CHR 0x0C"
    | "c \<notin> set [CHR 0x22, CHR 0x5C, CHR 0x0A, CHR 0x0D, CHR 0x09, CHR 0x08, CHR 0x0C]"
      "32 \<le> (of_char c :: nat) \<and> (of_char c :: nat) \<le> 126"
    | "c \<notin> set [CHR 0x22, CHR 0x5C, CHR 0x0A, CHR 0x0D, CHR 0x09, CHR 0x08, CHR 0x0C]"
      "\<not> (32 \<le> (of_char c :: nat) \<and> (of_char c :: nat) \<le> 126)"
    by auto
  then show ?thesis
  proof cases
    case 8
    then have "write_char c = [c]" by (simp add: write_char_def)
    with 8 show ?thesis by simp
  next
    case 9
    then have "write_char c = [CHR 0x5C, CHR ''u'', CHR ''0'', CHR ''0'',
            hex_digit (of_char c div 16), hex_digit (of_char c mod 16)]"
      by (simp add: write_char_def)
    then show ?thesis using read_chars_escape_u [of c s] by simp
  qed (simp_all add: write_char_def)
qed

lemma read_chars_written:
  "read_chars (concat (map write_char k) @ CHR 0x22 # s) = Some (k, s)"
  by (induction k) (simp_all add: read_chars_write_char)

lemma read_string_write_string: "read_string (write_string k @ s) = Some (k, s)"
  by (simp add: read_string_def write_string_def read_chars_written)

lemma write_string_Cons: "write_string k = CHR 0x22 # concat (map write_char k) @ [CHR 0x22]"
  by (simp add: write_string_def)

lemma skip_ws_quote: "skip_ws (write_string k @ s) = write_string k @ s"
  by (simp add: skip_ws_def write_string_Cons)

lemma write_int_index: "write_int 1 = ''1''" "write_int 2 = ''2''"
  by (simp_all add: write_int_def write_nat.simps)

lemma read_int_index:
  assumes "v = 1 \<or> v = 2" and "\<not> is_digit c"
  shows "read_int (write_int v @ c # s) = Some (v, c # s)"
proof -
  have "read_int (CHR ''1'' # c # s) = Some (1, c # s)"
    and "read_int (CHR ''2'' # c # s) = Some (2, c # s)"
    using assms(2) by (simp_all add: read_int_def is_digit_def read_nat_def Let_def)
  with assms(1) show ?thesis by (auto simp: write_int_index)
qed

lemma skip_ws_blank:
  "skip_ws (CHR '' '' # s) = skip_ws s" "skip_ws (CHR 0x0A # s) = skip_ws s"
  by (simp_all add: skip_ws_def)

lemma skip_ws_mark:
  "skip_ws (CHR '':'' # s) = CHR '':'' # s" "skip_ws (CHR ''}'' # s) = CHR ''}'' # s"
  "skip_ws (CHR '','' # s) = CHR '','' # s" "skip_ws (CHR ''{'' # s) = CHR ''{'' # s"
  "skip_ws [] = []"
  by (simp_all add: skip_ws_def)

lemma skip_ws_index: "v = 1 \<or> v = 2 \<Longrightarrow> skip_ws (write_int v @ s) = write_int v @ s"
  by (auto simp: skip_ws_def write_int_index)

lemma read_member:
  assumes "v = 1 \<or> v = 2" and "\<not> is_digit c"
  shows "read_members (Suc n) (CHR 0x0A # ''  '' @ write_string k @ '': '' @ write_int v @ c # s) =
     (case skip_ws (c # s) of
        [] \<Rightarrow> None
      | d # s4 \<Rightarrow>
          if d = CHR ''}'' then Some ([(k, PInt v)], s4)
          else if d = CHR '','' then
            map_option (\<lambda>(kvs, r). ((k, PInt v) # kvs, r)) (read_members n s4)
          else None)"
  using assms
  by (simp add: skip_ws_blank skip_ws_mark skip_ws_quote read_string_write_string
      skip_ws_index read_int_index)

lemma read_members_written:
  "index_cache kvs \<Longrightarrow> kvs \<noteq> [] \<Longrightarrow> length kvs \<le> n \<Longrightarrow>
     read_members n (CHR 0x0A # write_members kvs @ CHR ''}'' # r) = Some (kvs, r)"
proof (induction kvs arbitrary: n rule: write_members.induct)
  case 1
  then show ?case by simp
next
  case (2 k v)
  then obtain m where n: "n = Suc m" by (cases n) auto
  from 2 obtain i where v: "v = PInt i" "i = 1 \<or> i = 2" by auto
  have "read_members (Suc m)
      (CHR 0x0A # ''  '' @ write_string k @ '': '' @ write_int i @ CHR 0x0A # CHR ''}'' # r) =
      Some ([(k, PInt i)], r)"
    using v(2) by (subst read_member) (simp_all add: is_digit_def skip_ws_blank skip_ws_mark)
  then show ?case by (simp add: n v(1))
next
  case (3 k v kv kvs)
  then obtain m where n: "n = Suc m" by (cases n) auto
  from "3.prems" obtain i where v: "v = PInt i" "i = 1 \<or> i = 2" by auto
  from "3.prems" n have rest: "index_cache (kv # kvs)" "kv # kvs \<noteq> []" "length (kv # kvs) \<le> m"
    by auto
  have ih: "read_members m (CHR 0x0A # write_members (kv # kvs) @ CHR ''}'' # r) =
      Some (kv # kvs, r)"
    using rest by (rule "3.IH")
  have "read_members (Suc m)
      (CHR 0x0A # ''  '' @ write_string k @ '': '' @ write_int i @ CHR '','' #
         (CHR 0x0A # write_members (kv # kvs) @ CHR ''}'' # r)) =
      Some ((k, PInt i) # kv # kvs, r)"
    using v(2) by (subst read_member) (simp_all add: is_digit_def skip_ws_blank skip_ws_mark ih)
  then show ?case by (simp add: n v(1))
qed

lemma length_write_members: "length kvs \<le> length (write_members kvs)"
  by (induction kvs rule: write_members.induct) simp_all

lemma skip_ws_members:
  "kvs \<noteq> [] \<Longrightarrow> \<exists>t. skip_ws (CHR 0x0A # write_members kvs @ s) = CHR 0x22 # t"
  by (induction kvs rule: write_members.induct) (simp_all add: skip_ws_def write_string_Cons)

lemma flat_load_flat_dump:
  assumes "index_cache kvs"
  shows "flat_load (flat_dump (PDict kvs)) = Some (PDict kvs)"
proof (cases "kvs = []")
  case True
  then show ?thesis by (simp add: flat_load_def skip_ws_def)
next
  case False
  let ?s1 = "CHR 0x0A # write_members kvs @ ''}''"
  have d: "flat_dump (PDict kvs) = CHR ''{'' # ?s1" using False by simp
  from skip_ws_members [OF False, of "''}''"] obtain t where t: "skip_ws ?s1 = CHR 0x22 # t"
    by blast
  have len: "length kvs \<le> length (CHR ''{'' # ?s1)"
    using length_write_members [of kvs] by simp
  have r: "read_members (length (CHR ''{'' # ?s1)) ?s1 = Some (kvs, [])"
    using read_members_written [OF assms False len, of "[]"] by simp
  have w: "skip_ws (CHR ''{'' # ?s1) = CHR ''{'' # ?s1"
    by (simp add: skip_ws_def)
  show ?thesis
    unfolding d flat_load_def w using t r by (simp add: skip_ws_def)
qed

text \<open>
  Claim C8. Saving a cache with \<open>save_workday_cache\<close> and loading it back with
  \<open>load_workday_cache\<close> returns what \<open>json.load\<close> makes of the text \<open>json.dump\<close>
  wrote: the file is there, and it holds that text. So the cache comes back whenever
  the json module reads back what it wrote. With the reader and the writer for the
  JSON text of a flat cache, every cache whose entries are the integers 1 or 2 comes
  back key for key, in the same order.
\<close>

theorem workday_cache_round_trip:
  "load_workday_cache js (save_workday_cache js cache fs) =
     (case json_load js (json_dump js (PDict cache)) of
        Some v \<Rightarrow> v
      | None \<Rightarrow> PDict []) \<and>
   (json_load js (json_dump js (PDict cache)) = Some (PDict cache) \<longrightarrow>
      load_workday_cache js (save_workday_cache js cache fs) = PDict cache) \<and>
   (index_cache cache \<longrightarrow>
      load_workday_cache flat_json (save_workday_cache flat_json cache fs) = PDict cache)"
proof -
  have a: "load_workday_cache j (save_workday_cache j cache fs) =
     (case json_load j (json_dump j (PDict cache)) of
        Some v \<Rightarrow> v
      | None \<Rightarrow> PDict [])" for j
    by (simp add: load_workday_cache_def save_workday_cache_def)
  have b: "load_workday_cache flat_json (save_workday_cache flat_json cache fs) = PDict cache"
    if "index_cache cache"
    using flat_load_flat_dump [OF that] by (simp add: a flat_json_def)
  from a [of js] b show ?thesis by simp
qed

text \<open>
  The theorem of C8 on a cache of two tenants, saved where no cache file was: before
  the save the load gives the empty cache, after it the two entries.
\<close>

theorem workday_cache_round_trip_witness:
  "index_cache [(''acme'', PInt 2), (''beta'', PInt 1)] \<and>
   json_load flat_json (json_dump flat_json (PDict [(''acme'', PInt 2), (''beta'', PInt 1)]))
     = Some (PDict [(''acme'', PInt 2), (''beta'', PInt 1)]) \<and>
   load_workday_cache flat_json Map.empty = PDict [] \<and>
   load_workday_cache flat_json
      (save_workday_cache flat_json [(''acme'', PInt 2), (''beta'', PInt 1)] Map.empty)
     = PDict [(''acme'', PInt 2), (''beta'', PInt 1)]"
proof -
  have i: "index_cache [(''acme'', PInt 2), (''beta'', PInt 1)]"
    by simp
  have l: "json_load flat_json (json_dump flat_json (PDict [(''acme'', PInt 2), (''beta'', PInt 1)]))
     = Some (PDict [(''acme'', PInt 2), (''beta'', PInt 1)])"
    by (simp add: flat_json_def flat_load_def skip_ws_def read_string_def read_int_def
        is_digit_def read_nat_def write_string_def write_char_def write_int_def
        write_nat.simps Let_def)
  have e: "load_workday_cache flat_json Map.empty = PDict []"
    by (simp add: load_workday_cache_def)
  from workday_cache_round_trip [of flat_json "[(''acme'', PInt 2), (''beta'', PInt 1)]" Map.empty]
    i l e
  show ?thesis by simp
qed

end
